theory Spec2Isabelle
  imports Complex_Main
begin

section \<open>The scan orchestrator of \<open>scanner.py\<close> (class \<open>CloudScanner\<close>)\<close>

text \<open>
  \<open>CloudScanner\<close> drives three collaborators: \<open>GitHubScanner\<close> (repository and file
  listing, content fetch), \<open>SecretDetector\<close> (file filter, detection, deduplication,
  confidence filter) and \<open>ReportGenerator\<close>.  They are defined outside \<open>scanner.py\<close>,
  so the collaborators are parameters of the model (the record \<open>env\<close>).  Every call of a
  collaborator may raise; a call returns \<open>Inl e\<close> for a raised exception \<open>e\<close> and
  \<open>Inr v\<close> for a returned value \<open>v\<close>.  The exceptions are those of the class
  \<open>Exception\<close>, which the handler of line 228 catches.  The network and file system behind
  \<open>GitHubScanner\<close> and \<open>ReportGenerator\<close>, and the clock behind \<open>datetime.now()\<close>, are a
  world state of an arbitrary type \<open>'w\<close> that these calls read and change.  The methods
  of \<open>SecretDetector\<close> are functions of their arguments.  Every call is appended to a log
  of events, so that "is not invoked" is a statement about the log.  Progress output
  (\<open>print\<close>) is not modelled.
\<close>

subsection \<open>Data\<close>

datatype exn = Exception string

text \<open>The repository dictionary: the keys \<open>full_name\<close>, \<open>url\<close>, \<open>clone_url\<close> that
  \<open>scan_single_repo\<close> builds and \<open>_scan_repository\<close> reads.\<close>

record repo =
  full_name :: string
  url :: string
  clone_url :: string

text \<open>The file dictionary; \<open>_scan_repository\<close> reads the key \<open>path\<close> only.\<close>

record file_info =
  path :: string

text \<open>
  A finding dictionary.  The detector creates it with category, matched text, file path, line
  number and confidence (the fields the specification lists; of the confidence only the
  order matters here); \<open>_scan_repository\<close> sets the keys \<open>repo_url\<close>, \<open>repo_name\<close> and
  \<open>scan_time\<close>, which are absent (\<open>None\<close>) before.
\<close>

record finding =
  category :: string
  matched_text :: string
  file_path :: string
  line_number :: nat
  confidence :: rat
  repo_url :: "string option"
  repo_name :: "string option"
  scan_time :: "string option"

type_synonym datetime = nat

datatype event =
    Ev_now
  | Ev_get_user_repos string
  | Ev_get_org_repos string
  | Ev_search_ai_repos int
  | Ev_get_repo_files string
  | Ev_should_scan_file string
  | Ev_get_file_content string string
  | Ev_detect_secrets_in_text string string
  | Ev_deduplicate_findings "finding list"
  | Ev_filter_high_confidence "finding list"
  | Ev_generate_report "finding list" datetime string
  | Ev_generate_summary string nat

record 'w env =
  now :: "'w \<Rightarrow> datetime \<times> 'w"
  strftime :: "datetime \<Rightarrow> string"
  get_user_repos :: "string \<Rightarrow> 'w \<Rightarrow> (exn + repo list) \<times> 'w"
  get_org_repos :: "string \<Rightarrow> 'w \<Rightarrow> (exn + repo list) \<times> 'w"
  search_ai_repos :: "int \<Rightarrow> 'w \<Rightarrow> (exn + repo list) \<times> 'w"
  get_repo_files :: "string \<Rightarrow> 'w \<Rightarrow> (exn + file_info list) \<times> 'w"
  get_file_content :: "string \<Rightarrow> string \<Rightarrow> 'w \<Rightarrow> (exn + string option) \<times> 'w"
  should_scan_file :: "string \<Rightarrow> exn + bool"
  detect_secrets_in_text :: "string \<Rightarrow> string \<Rightarrow> exn + finding list"
  deduplicate_findings :: "finding list \<Rightarrow> exn + finding list"
  filter_high_confidence :: "finding list \<Rightarrow> exn + finding list"
  generate_report :: "finding list \<Rightarrow> datetime \<Rightarrow> string \<Rightarrow> 'w \<Rightarrow> (exn + string) \<times> 'w"
  generate_summary :: "string \<Rightarrow> nat \<Rightarrow> 'w \<Rightarrow> (exn + string) \<times> 'w"

text \<open>The state of a run: the world and the log of the calls made so far.\<close>

type_synonym 'w st = "'w \<times> event list"

definition io :: "event \<Rightarrow> ('w \<Rightarrow> 'a \<times> 'w) \<Rightarrow> 'w st \<Rightarrow> 'a \<times> 'w st" where
  "io ev f s = (case f (fst s) of (a, w) \<Rightarrow> (a, (w, snd s @ [ev])))"

definition call :: "event \<Rightarrow> 'a \<Rightarrow> 'w st \<Rightarrow> 'a \<times> 'w st" where
  "call ev a s = (a, (fst s, snd s @ [ev]))"

subsection \<open>\<open>_scan_repository\<close>\<close>

text \<open>Lines 214 to 216: the three keys set on every secret before it is appended.\<close>

definition enrich :: "repo \<Rightarrow> string \<Rightarrow> finding \<Rightarrow> finding" where
  "enrich r t f = f\<lparr>repo_url := Some (url r), repo_name := Some (full_name r), scan_time := Some t\<rparr>"

text \<open>Line 205, \<open>if content:\<close>: \<open>None\<close> and the empty string are false.\<close>

fun truthy :: "string option \<Rightarrow> bool" where
  "truthy None = False"
| "truthy (Some c) = (c \<noteq> [])"

text \<open>
  One pass of the loop body, lines 195 to 217, for the file \<open>f\<close>: an exception raised by a
  call (\<open>Inl\<close>), or the findings appended to \<open>findings\<close> in this pass.
\<close>

definition scan_file :: "'w env \<Rightarrow> repo \<Rightarrow> string \<Rightarrow> file_info \<Rightarrow> 'w st \<Rightarrow> (exn + finding list) \<times> 'w st" where
  "scan_file E r t f s0 =
    (case call (Ev_should_scan_file (path f)) (should_scan_file E (path f)) s0 of
       (Inl e, s1) \<Rightarrow> (Inl e, s1)
     | (Inr ok, s1) \<Rightarrow>
         if \<not> ok then (Inr [], s1)
         else
           (case io (Ev_get_file_content (full_name r) (path f))
                    (get_file_content E (full_name r) (path f)) s1 of
              (Inl e, s2) \<Rightarrow> (Inl e, s2)
            | (Inr content, s2) \<Rightarrow>
                if truthy content then
                  (case call (Ev_detect_secrets_in_text (the content) (path f))
                             (detect_secrets_in_text E (the content) (path f)) s2 of
                     (Inl e, s3) \<Rightarrow> (Inl e, s3)
                   | (Inr secrets, s3) \<Rightarrow> (Inr (map (enrich r t) secrets), s3))
                else (Inr [], s2)))"

text \<open>
  The loop of line 194 over the files, \<open>acc\<close> being the list \<open>findings\<close>.  An exception
  leaves the loop (and the \<open>try\<close> block) with \<open>findings\<close> as it stands.
\<close>

fun scan_files :: "'w env \<Rightarrow> repo \<Rightarrow> string \<Rightarrow> file_info list \<Rightarrow> finding list \<Rightarrow> 'w st
    \<Rightarrow> exn option \<times> finding list \<times> 'w st" where
  "scan_files E r t [] acc s = (None, acc, s)"
| "scan_files E r t (f # fs) acc s =
    (case scan_file E r t f s of
       (Inl e, s1) \<Rightarrow> (Some e, acc, s1)
     | (Inr new, s1) \<Rightarrow> scan_files E r t fs (acc @ new) s1)"

text \<open>
  Lines 186 to 217: the clock is read once, the files are listed, the loop runs.  The
  result is the exception that left the \<open>try\<close> block, if any, and the list \<open>findings\<close>.
\<close>

definition collect_findings :: "'w env \<Rightarrow> repo \<Rightarrow> 'w st \<Rightarrow> exn option \<times> finding list \<times> 'w st" where
  "collect_findings E r s0 =
    (case io Ev_now (now E) s0 of
       (d, s1) \<Rightarrow>
         (case io (Ev_get_repo_files (full_name r)) (get_repo_files E (full_name r)) s1 of
            (Inl e, s2) \<Rightarrow> (Some e, [], s2)
          | (Inr files, s2) \<Rightarrow> scan_files E r (strftime E d) files [] s2))"

text \<open>
  The whole function: lines 220 and 221 run when the loop ended without an exception;
  the handler of line 228 catches every exception, and line 231 returns \<open>findings\<close> as it
  stands then.
\<close>

definition scan_repository :: "'w env \<Rightarrow> repo \<Rightarrow> 'w st \<Rightarrow> finding list \<times> 'w st" where
  "scan_repository E r s0 =
    (case collect_findings E r s0 of
       (Some e, findings, s1) \<Rightarrow> (findings, s1)
     | (None, findings, s1) \<Rightarrow>
         (case call (Ev_deduplicate_findings findings) (deduplicate_findings E findings) s1 of
            (Inl e, s2) \<Rightarrow> (findings, s2)
          | (Inr deduped, s2) \<Rightarrow>
              (case call (Ev_filter_high_confidence deduped) (filter_high_confidence E deduped) s2 of
                 (Inl e, s3) \<Rightarrow> (deduped, s3)
               | (Inr kept, s3) \<Rightarrow> (kept, s3))))"

subsection \<open>The scans of a target\<close>

text \<open>
  The loop of lines 43 to 47 (the same text at lines 81 to 85 and 119 to 123), \<open>all\<close> being
  the list \<open>all_findings\<close>.  \<open>_scan_repository\<close> raises nothing, so the loop has no
  other exit than its end.
\<close>

fun scan_repos :: "'w env \<Rightarrow> repo list \<Rightarrow> finding list \<Rightarrow> 'w st \<Rightarrow> finding list \<times> 'w st" where
  "scan_repos E [] all s = (all, s)"
| "scan_repos E (r # rs) all s =
    (case scan_repository E r s of (findings, s1) \<Rightarrow> scan_repos E rs (all @ findings) s1)"

definition scan_user :: "'w env \<Rightarrow> string \<Rightarrow> 'w st \<Rightarrow> (exn + string) \<times> 'w st" where
  "scan_user E username s0 =
    (case io Ev_now (now E) s0 of
       (scan_start_time, s1) \<Rightarrow>
         (case io (Ev_get_user_repos username) (get_user_repos E username) s1 of
            (Inl e, s2) \<Rightarrow> (Inl e, s2)
          | (Inr repos, s2) \<Rightarrow>
              (case scan_repos E repos [] s2 of
                 (all_findings, s3) \<Rightarrow>
                   (case io (Ev_generate_report all_findings scan_start_time (''user:'' @ username))
                            (generate_report E all_findings scan_start_time (''user:'' @ username)) s3 of
                      (Inl e, s4) \<Rightarrow> (Inl e, s4)
                    | (Inr report_path, s4) \<Rightarrow>
                        (case io (Ev_generate_summary report_path (length all_findings))
                                 (generate_summary E report_path (length all_findings)) s4 of
                           (Inl e, s5) \<Rightarrow> (Inl e, s5)
                         | (Inr summary, s5) \<Rightarrow> (Inr report_path, s5))))))"

definition scan_organization :: "'w env \<Rightarrow> string \<Rightarrow> 'w st \<Rightarrow> (exn + string) \<times> 'w st" where
  "scan_organization E org_name s0 =
    (case io Ev_now (now E) s0 of
       (scan_start_time, s1) \<Rightarrow>
         (case io (Ev_get_org_repos org_name) (get_org_repos E org_name) s1 of
            (Inl e, s2) \<Rightarrow> (Inl e, s2)
          | (Inr repos, s2) \<Rightarrow>
              (case scan_repos E repos [] s2 of
                 (all_findings, s3) \<Rightarrow>
                   (case io (Ev_generate_report all_findings scan_start_time (''org:'' @ org_name))
                            (generate_report E all_findings scan_start_time (''org:'' @ org_name)) s3 of
                      (Inl e, s4) \<Rightarrow> (Inl e, s4)
                    | (Inr report_path, s4) \<Rightarrow>
                        (case io (Ev_generate_summary report_path (length all_findings))
                                 (generate_summary E report_path (length all_findings)) s4 of
                           (Inl e, s5) \<Rightarrow> (Inl e, s5)
                         | (Inr summary, s5) \<Rightarrow> (Inr report_path, s5))))))"

definition scan_ai_projects :: "'w env \<Rightarrow> int \<Rightarrow> 'w st \<Rightarrow> (exn + string) \<times> 'w st" where
  "scan_ai_projects E max_repos s0 =
    (case io Ev_now (now E) s0 of
       (scan_start_time, s1) \<Rightarrow>
         (case io (Ev_search_ai_repos max_repos) (search_ai_repos E max_repos) s1 of
            (Inl e, s2) \<Rightarrow> (Inl e, s2)
          | (Inr repos, s2) \<Rightarrow>
              (case scan_repos E repos [] s2 of
                 (all_findings, s3) \<Rightarrow>
                   (case io (Ev_generate_report all_findings scan_start_time ''auto:ai-projects'')
                            (generate_report E all_findings scan_start_time ''auto:ai-projects'') s3 of
                      (Inl e, s4) \<Rightarrow> (Inl e, s4)
                    | (Inr report_path, s4) \<Rightarrow>
                        (case io (Ev_generate_summary report_path (length all_findings))
                                 (generate_summary E report_path (length all_findings)) s4 of
                           (Inl e, s5) \<Rightarrow> (Inl e, s5)
                         | (Inr summary, s5) \<Rightarrow> (Inr report_path, s5))))))"

text \<open>Lines 153 to 157: the dictionary \<open>repo_info\<close> that \<open>scan_single_repo\<close> builds from its
  argument.\<close>

definition repo_info :: "string \<Rightarrow> repo" where
  "repo_info repo_full_name =
    \<lparr>full_name = repo_full_name,
     url = ''https://github.com/'' @ repo_full_name,
     clone_url = ''https://github.com/'' @ repo_full_name @ ''.git''\<rparr>"

definition scan_single_repo :: "'w env \<Rightarrow> string \<Rightarrow> 'w st \<Rightarrow> (exn + string) \<times> 'w st" where
  "scan_single_repo E repo_full_name s0 =
    (case io Ev_now (now E) s0 of
       (scan_start_time, s1) \<Rightarrow>
         (case scan_repository E (repo_info repo_full_name) s1 of
            (findings, s2) \<Rightarrow>
              (case io (Ev_generate_report findings scan_start_time (''single:'' @ repo_full_name))
                       (generate_report E findings scan_start_time (''single:'' @ repo_full_name)) s2 of
                 (Inl e, s3) \<Rightarrow> (Inl e, s3)
               | (Inr report_path, s3) \<Rightarrow>
                   (case io (Ev_generate_summary report_path (length findings))
                            (generate_summary E report_path (length findings)) s3 of
                      (Inl e, s4) \<Rightarrow> (Inl e, s4)
                    | (Inr summary, s4) \<Rightarrow> (Inr report_path, s4)))))"

text \<open>
  The three scans of a target with several repositories, as one function of the target:
  which scan runs, which listing call resolves the target, and the scan-type label.
\<close>

datatype target = User string | Organization string | Ai_projects int

fun scan_target :: "'w env \<Rightarrow> target \<Rightarrow> 'w st \<Rightarrow> (exn + string) \<times> 'w st" where
  "scan_target E (User username) = scan_user E username"
| "scan_target E (Organization org_name) = scan_organization E org_name"
| "scan_target E (Ai_projects max_repos) = scan_ai_projects E max_repos"

fun resolve :: "'w env \<Rightarrow> target \<Rightarrow> 'w \<Rightarrow> (exn + repo list) \<times> 'w" where
  "resolve E (User username) = get_user_repos E username"
| "resolve E (Organization org_name) = get_org_repos E org_name"
| "resolve E (Ai_projects max_repos) = search_ai_repos E max_repos"

fun resolve_event :: "target \<Rightarrow> event" where
  "resolve_event (User username) = Ev_get_user_repos username"
| "resolve_event (Organization org_name) = Ev_get_org_repos org_name"
| "resolve_event (Ai_projects max_repos) = Ev_search_ai_repos max_repos"

fun scan_type :: "target \<Rightarrow> string" where
  "scan_type (User username) = ''user:'' @ username"
| "scan_type (Organization org_name) = ''org:'' @ org_name"
| "scan_type (Ai_projects max_repos) = ''auto:ai-projects''"

subsection \<open>Observing a run\<close>

text \<open>The calls made between the state \<open>s\<close> and the later state \<open>s'\<close>.\<close>

definition events_of :: "'w st \<Rightarrow> 'w st \<Rightarrow> event list" where
  "events_of s s' = drop (length (snd s)) (snd s')"

text \<open>The finding lists handed to \<open>generate_report\<close>, in the order of the calls.\<close>

fun reported :: "event list \<Rightarrow> finding list list" where
  "reported [] = []"
| "reported (Ev_generate_report fs d l # evs) = fs # reported evs"
| "reported (ev # evs) = reported evs"

text \<open>The finding list that each repository of the list contributes, in the order of the
  list, the scan of a repository starting in the state the one before it left.\<close>

fun repo_results :: "'w env \<Rightarrow> repo list \<Rightarrow> 'w st \<Rightarrow> finding list list" where
  "repo_results E [] s = []"
| "repo_results E (r # rs) s =
    fst (scan_repository E r s) # repo_results E rs (snd (scan_repository E r s))"

text \<open>
  The calls that the scan of the repository named \<open>n\<close> may make after its file listing:
  the file filter on any path; a content fetch from \<open>n\<close>, of a path the filter accepts;
  a detection on non-empty content, of a path the filter accepts; deduplication and
  confidence filter.
\<close>

fun repo_event :: "'w env \<Rightarrow> string \<Rightarrow> event \<Rightarrow> bool" where
  "repo_event E n (Ev_should_scan_file p) = True"
| "repo_event E n (Ev_get_file_content m p) = (m = n \<and> should_scan_file E p = Inr True)"
| "repo_event E n (Ev_detect_secrets_in_text c p) = (c \<noteq> [] \<and> should_scan_file E p = Inr True)"
| "repo_event E n (Ev_deduplicate_findings fs) = True"
| "repo_event E n (Ev_filter_high_confidence fs) = True"
| "repo_event E n ev = False"

text \<open>
  The calls that belong to the scan of a repository: every call but the listing of the
  repositories of a target and the two calls of the report generator.
\<close>

fun scan_event :: "event \<Rightarrow> bool" where
  "scan_event (Ev_get_user_repos u) = False"
| "scan_event (Ev_get_org_repos n) = False"
| "scan_event (Ev_search_ai_repos m) = False"
| "scan_event (Ev_generate_report fs d l) = False"
| "scan_event (Ev_generate_summary p n) = False"
| "scan_event ev = True"

subsection \<open>Deduplication and confidence filter of the detector\<close>

text \<open>The key of deduplication: category, matched text and file path.\<close>

definition dedup_key :: "finding \<Rightarrow> string \<times> string \<times> string" where
  "dedup_key f = (category f, matched_text f, file_path f)"

text \<open>
  Modelled from the spec: \<open>SecretDetector.deduplicate_findings\<close> is not in \<open>scanner.py\<close>.
  Two findings are duplicates iff they share the key; of duplicates the one with the
  highest confidence survives, the first seen on a tie; the output keeps the first-seen
  order of the keys.  \<open>absorb f survivors\<close> takes one more finding into the survivors.
\<close>

fun absorb :: "finding \<Rightarrow> finding list \<Rightarrow> finding list" where
  "absorb f [] = [f]"
| "absorb f (g # gs) =
    (if dedup_key g = dedup_key f
     then (if confidence g < confidence f then f else g) # gs
     else g # absorb f gs)"

definition spec_deduplicate_findings :: "finding list \<Rightarrow> finding list" where
  "spec_deduplicate_findings fs = foldl (\<lambda>survivors f. absorb f survivors) [] fs"

text \<open>
  Modelled from the spec: \<open>SecretDetector.filter_high_confidence\<close> is not in \<open>scanner.py\<close>.
  It drops every finding whose confidence is strictly below the threshold.
\<close>

definition spec_filter_high_confidence :: "rat \<Rightarrow> finding list \<Rightarrow> finding list" where
  "spec_filter_high_confidence threshold fs = filter (\<lambda>f. \<not> confidence f < threshold) fs"

text \<open>The invariant of a finding list: no confidence below the threshold, no key twice.\<close>

definition findings_invariant :: "rat \<Rightarrow> finding list \<Rightarrow> bool" where
  "findings_invariant threshold fs \<longleftrightarrow>
     list_all (\<lambda>f. \<not> confidence f < threshold) fs \<and> distinct (map dedup_key fs)"

subsection \<open>A concrete environment\<close>

text \<open>
  A small world for concrete runs.  The world state is the clock, which every reading
  advances.  The user \<open>alice\<close> has three repositories, of which \<open>alice/two\<close> cannot be
  listed; the organization \<open>acme\<close> has the two others of them; the user \<open>bob\<close> has three repositories, of which
  \<open>bob/leaky\<close> lists three files, the second of which cannot be fetched.  Every other
  repository lists four files: one scanned, one that the file filter rejects, one with
  empty content and one with absent content.  The detector reports the same key twice with
  confidence 9/10 and another key once with confidence 1/5; the threshold is 1/2.
\<close>

definition mk_repo :: "string \<Rightarrow> repo" where
  "mk_repo n = \<lparr>full_name = n, url = ''https://github.com/'' @ n,
               clone_url = ''https://github.com/'' @ n @ ''.git''\<rparr>"

definition hit :: "string \<Rightarrow> nat \<Rightarrow> finding" where
  "hit p l = \<lparr>category = ''AWS Access Key'', matched_text = ''AKIA****CDEF'', file_path = p,
             line_number = l, confidence = 9 / 10,
             repo_url = None, repo_name = None, scan_time = None\<rparr>"

definition weak :: "string \<Rightarrow> nat \<Rightarrow> finding" where
  "weak p l = \<lparr>category = ''Generic API Key'', matched_text = ''xxxx****here'', file_path = p,
              line_number = l, confidence = 1 / 5,
              repo_url = None, repo_name = None, scan_time = None\<rparr>"

definition demo_env :: "nat env" where
  "demo_env =
    \<lparr>now = (\<lambda>w. (w, Suc w)),
     strftime = (\<lambda>d. ''t'' @ replicate d CHR ''+''),
     get_user_repos = (\<lambda>u w.
        (if u = ''alice'' then Inr [mk_repo ''alice/one'', mk_repo ''alice/two'', mk_repo ''alice/three'']
         else if u = ''bob'' then Inr [mk_repo ''bob/one'', mk_repo ''bob/leaky'', mk_repo ''bob/three'']
         else Inl (Exception ''Not Found''), w)),
     get_org_repos = (\<lambda>n w.
        (if n = ''acme'' then Inr [mk_repo ''alice/one'', mk_repo ''alice/three'']
         else Inl (Exception ''Not Found''), w)),
     search_ai_repos = (\<lambda>m w.
        (Inr (take (nat m) [mk_repo ''alice/one'', mk_repo ''alice/two'', mk_repo ''alice/three'']), w)),
     get_repo_files = (\<lambda>n w.
        (if n = ''alice/two'' then Inl (Exception ''rate limit'')
         else if n = ''bob/leaky'' then Inr [\<lparr>path = ''a.py''\<rparr>, \<lparr>path = ''bad.py''\<rparr>, \<lparr>path = ''c.py''\<rparr>]
         else Inr [\<lparr>path = ''a.py''\<rparr>, \<lparr>path = ''node_modules/x.js''\<rparr>,
                   \<lparr>path = ''empty.txt''\<rparr>, \<lparr>path = ''gone.txt''\<rparr>], w)),
     get_file_content = (\<lambda>n p w.
        (if p = ''bad.py'' then Inl (Exception ''timeout'')
         else if p = ''empty.txt'' then Inr (Some [])
         else if p = ''gone.txt'' then Inr None
         else Inr (Some ''key = AKIA1234567890ABCDEF''), w)),
     should_scan_file = (\<lambda>p. Inr (p \<noteq> ''node_modules/x.js'')),
     detect_secrets_in_text = (\<lambda>c p. Inr [hit p 1, hit p 7, weak p 3]),
     deduplicate_findings = (\<lambda>fs. Inr (spec_deduplicate_findings fs)),
     filter_high_confidence = (\<lambda>fs. Inr (spec_filter_high_confidence (1 / 2) fs)),
     generate_report = (\<lambda>fs d l w. (Inr (''reports/'' @ l @ ''.md''), w)),
     generate_summary = (\<lambda>p n w. (Inr ''summary'', w))\<rparr>"

section \<open>Properties\<close>

subsection \<open>The log and the findings of a run\<close>

lemma events_of_append: "snd s' = snd s @ evs \<Longrightarrow> events_of s s' = evs"
  by (simp add: events_of_def)

lemma io_eq: "io ev f s = (a, s') \<longleftrightarrow> a = fst (f (fst s)) \<and> s' = (snd (f (fst s)), snd s @ [ev])"
  by (auto simp: io_def split: prod.splits)

lemma call_eq: "call ev a s = (b, s') \<longleftrightarrow> b = a \<and> s' = (fst s, snd s @ [ev])"
  by (auto simp: call_def)

lemma truthy_iff: "truthy c \<longleftrightarrow> (\<exists>x. c = Some x \<and> x \<noteq> [])"
  by (cases c) simp_all

lemma scan_file_events:
  assumes "scan_file E r t f s = (x, s')"
  shows "\<exists>evs. snd s' = snd s @ evs \<and> list_all (repo_event E (full_name r)) evs"
  using assms
  by (auto simp: scan_file_def io_def call_def truthy_iff split: prod.splits sum.splits if_splits)

lemma scan_files_events:
  "scan_files E r t fs acc s = (x, raw, s') \<Longrightarrow>
     \<exists>evs. snd s' = snd s @ evs \<and> list_all (repo_event E (full_name r)) evs"
proof (induction fs arbitrary: acc s)
  case Nil
  then show ?case by simp
next
  case (Cons f fs)
  obtain y s1 where step: "scan_file E r t f s = (y, s1)" by (cases "scan_file E r t f s")
  from scan_file_events [OF step] obtain evs1
    where e1: "snd s1 = snd s @ evs1" "list_all (repo_event E (full_name r)) evs1" by blast
  show ?case
  proof (cases y)
    case (Inl e)
    with Cons.prems step have "s' = s1" by simp
    with e1 show ?thesis by blast
  next
    case (Inr new)
    with Cons.prems step have "scan_files E r t fs (acc @ new) s1 = (x, raw, s')" by simp
    from Cons.IH [OF this] obtain evs2
      where e2: "snd s' = snd s1 @ evs2" "list_all (repo_event E (full_name r)) evs2" by blast
    from e1 e2 have "snd s' = snd s @ (evs1 @ evs2)" "list_all (repo_event E (full_name r)) (evs1 @ evs2)"
      by simp_all
    then show ?thesis by blast
  qed
qed

lemma collect_findings_events:
  assumes "collect_findings E r s = (x, raw, s')"
  shows "\<exists>evs. snd s' = snd s @ Ev_now # Ev_get_repo_files (full_name r) # evs
          \<and> list_all (repo_event E (full_name r)) evs"
proof -
  obtain d s1 where n: "io Ev_now (now E) s = (d, s1)" by (cases "io Ev_now (now E) s")
  obtain l s2 where g: "io (Ev_get_repo_files (full_name r)) (get_repo_files E (full_name r)) s1 = (l, s2)"
    by (cases "io (Ev_get_repo_files (full_name r)) (get_repo_files E (full_name r)) s1")
  from n g have log2: "snd s2 = snd s @ [Ev_now, Ev_get_repo_files (full_name r)]"
    by (simp add: io_eq)
  show ?thesis
  proof (cases l)
    case (Inl e)
    with assms n g have "s' = s2" by (simp add: collect_findings_def)
    with log2 show ?thesis by simp
  next
    case (Inr files)
    with assms n g have "scan_files E r (strftime E d) files [] s2 = (x, raw, s')"
      by (simp add: collect_findings_def)
    from scan_files_events [OF this] log2 show ?thesis by auto
  qed
qed

lemma scan_repository_events:
  assumes "scan_repository E r s = (fs, s')"
  shows "\<exists>evs. snd s' = snd s @ Ev_now # Ev_get_repo_files (full_name r) # evs
          \<and> list_all (repo_event E (full_name r)) evs"
proof -
  obtain x raw s1 where c: "collect_findings E r s = (x, raw, s1)"
    by (cases "collect_findings E r s")
  from collect_findings_events [OF c] obtain evs
    where e: "snd s1 = snd s @ Ev_now # Ev_get_repo_files (full_name r) # evs"
             "list_all (repo_event E (full_name r)) evs" by blast
  have "\<exists>tl. snd s' = snd s1 @ tl \<and> list_all (repo_event E (full_name r)) tl"
    using assms c
    by (auto simp: scan_repository_def call_def split: option.splits sum.splits)
  then obtain tl where t: "snd s' = snd s1 @ tl" "list_all (repo_event E (full_name r)) tl" by blast
  from e t have "snd s' = snd s @ Ev_now # Ev_get_repo_files (full_name r) # (evs @ tl)"
    "list_all (repo_event E (full_name r)) (evs @ tl)" by simp_all
  then show ?thesis by blast
qed


lemma repo_event_scan_event: "repo_event E n ev \<Longrightarrow> scan_event ev"
  by (cases ev) simp_all

lemma reported_append: "reported (xs @ ys) = reported xs @ reported ys"
  by (induction xs rule: reported.induct) simp_all

lemma reported_scan_events: "list_all scan_event evs \<Longrightarrow> reported evs = []"
  by (induction evs rule: reported.induct) simp_all

lemma scan_repos_events:
  "scan_repos E rs acc s = (all, s') \<Longrightarrow>
     \<exists>evs. snd s' = snd s @ evs \<and> list_all scan_event evs
          \<and> (\<forall>r \<in> set rs. Ev_get_repo_files (full_name r) \<in> set evs)"
proof (induction rs arbitrary: acc s)
  case Nil
  then show ?case by simp
next
  case (Cons r rs)
  obtain fs s1 where step: "scan_repository E r s = (fs, s1)" by (cases "scan_repository E r s")
  from scan_repository_events [OF step] obtain evs1
    where e1: "snd s1 = snd s @ Ev_now # Ev_get_repo_files (full_name r) # evs1"
              "list_all (repo_event E (full_name r)) evs1" by blast
  from e1(2) have sc1: "list_all scan_event evs1"
    by (auto simp: list_all_iff intro: repo_event_scan_event)
  from Cons.prems step have "scan_repos E rs (acc @ fs) s1 = (all, s')" by simp
  from Cons.IH [OF this] obtain evs2
    where e2: "snd s' = snd s1 @ evs2" "list_all scan_event evs2"
              "\<forall>r \<in> set rs. Ev_get_repo_files (full_name r) \<in> set evs2" by blast
  let ?evs = "Ev_now # Ev_get_repo_files (full_name r) # evs1 @ evs2"
  from e1 e2 sc1 have "snd s' = snd s @ ?evs" "list_all scan_event ?evs"
    "\<forall>q \<in> set (r # rs). Ev_get_repo_files (full_name q) \<in> set ?evs"
    by auto
  then show ?case by blast
qed

lemma scan_file_enriched:
  "scan_file E r t f s = (Inr new, s') \<Longrightarrow> \<exists>gs. new = map (enrich r t) gs"
  by (auto simp: scan_file_def io_def call_def split: prod.splits sum.splits if_splits)

lemma scan_files_enriched:
  "scan_files E r t fs acc s = (x, raw, s') \<Longrightarrow> \<exists>gs. raw = acc @ map (enrich r t) gs"
proof (induction fs arbitrary: acc s)
  case Nil
  then have "raw = acc @ map (enrich r t) []" by simp
  then show ?case by blast
next
  case (Cons f fs)
  obtain y s1 where step: "scan_file E r t f s = (y, s1)" by (cases "scan_file E r t f s")
  show ?case
  proof (cases y)
    case (Inl e)
    with Cons.prems step have "raw = acc @ map (enrich r t) []" by simp
    then show ?thesis by blast
  next
    case (Inr new)
    with step scan_file_enriched obtain gs1 where g1: "new = map (enrich r t) gs1" by blast
    from Inr Cons.prems step have "scan_files E r t fs (acc @ new) s1 = (x, raw, s')" by simp
    from Cons.IH [OF this] obtain gs2 where "raw = (acc @ new) @ map (enrich r t) gs2" by blast
    with g1 have "raw = acc @ map (enrich r t) (gs1 @ gs2)" by simp
    then show ?thesis by blast
  qed
qed

lemma scan_repos_concat:
  "fst (scan_repos E rs acc s) = acc @ concat (repo_results E rs s)"
  by (induction rs arbitrary: acc s) (simp_all split: prod.splits)


lemma list_all_memD: "list_all P xs \<Longrightarrow> x \<in> set xs \<Longrightarrow> P x"
  by (simp add: list_all_iff)

subsection \<open>Files that are skipped\<close>

text \<open>
  Claim C8.  A file whose path the file filter rejects (\<open>should_scan_file\<close> returns false)
  costs the one call of the filter and nothing else: the pass of the loop for it makes no
  other call, leaves the world as it is and appends no finding; and the log of the scan of
  a repository holds no content fetch and no detection for such a path.
\<close>

theorem skipped_file_not_fetched:
  assumes "should_scan_file E p = Inr False"
  shows "(path f = p \<longrightarrow>
            scan_file E r t f s = (Inr [], (fst s, snd s @ [Ev_should_scan_file p])))
       \<and> Ev_get_file_content n p \<notin> set (events_of s (snd (scan_repository E r s)))
       \<and> Ev_detect_secrets_in_text c p \<notin> set (events_of s (snd (scan_repository E r s)))"
proof -
  have body: "path f = p \<longrightarrow>
      scan_file E r t f s = (Inr [], (fst s, snd s @ [Ev_should_scan_file p]))"
    using assms by (simp add: scan_file_def call_def)
  obtain fs s' where run: "scan_repository E r s = (fs, s')"
    by (cases "scan_repository E r s")
  from scan_repository_events [OF run] obtain evs
    where log: "snd s' = snd s @ Ev_now # Ev_get_repo_files (full_name r) # evs"
      and evs: "list_all (repo_event E (full_name r)) evs" by blast
  from log have ev: "events_of s s' = Ev_now # Ev_get_repo_files (full_name r) # evs"
    by (rule events_of_append)
  have "Ev_get_file_content n p \<notin> set evs"
  proof
    assume "Ev_get_file_content n p \<in> set evs"
    with evs have "repo_event E (full_name r) (Ev_get_file_content n p)"
      by (rule list_all_memD)
    with assms show False by simp
  qed
  moreover have "Ev_detect_secrets_in_text c p \<notin> set evs"
  proof
    assume "Ev_detect_secrets_in_text c p \<in> set evs"
    with evs have "repo_event E (full_name r) (Ev_detect_secrets_in_text c p)"
      by (rule list_all_memD)
    with assms show False by simp
  qed
  ultimately show ?thesis using body run ev by simp
qed

theorem skipped_file_not_fetched_witness:
  "should_scan_file demo_env ''node_modules/x.js'' = Inr False
   \<and> scan_file demo_env (mk_repo ''alice/one'') ''t'' \<lparr>path = ''node_modules/x.js''\<rparr> (0, [])
       = (Inr [], (0, [Ev_should_scan_file ''node_modules/x.js'']))
   \<and> Ev_get_file_content ''alice/one'' ''node_modules/x.js''
       \<notin> set (events_of (0, []) (snd (scan_repository demo_env (mk_repo ''alice/one'') (0, []))))"
proof -
  have h: "should_scan_file demo_env ''node_modules/x.js'' = Inr False"
    by (simp add: demo_env_def)
  from skipped_file_not_fetched [OF h, of "\<lparr>path = ''node_modules/x.js''\<rparr>"
      "mk_repo ''alice/one''" "''t''" "(0, [])" "''alice/one''" "[]"]
  show ?thesis using h by simp
qed

text \<open>
  Claim C9.  When the content fetch of a file returns \<open>None\<close> or the empty string, the
  pass of the loop for it ends after the fetch and appends no finding.  A detection in the
  log of a pass is a detection for the file of the pass, on the content that the fetch
  returned, which is not empty; and every detection in the log of the scan of a repository
  is on non-empty content.
\<close>

theorem empty_content_not_detected:
  "(should_scan_file E (path f) = Inr True \<longrightarrow>
    get_file_content E (full_name r) (path f) (fst s) = (Inr content, w') \<longrightarrow>
    (content = None \<or> content = Some []) \<longrightarrow>
      scan_file E r t f s
        = (Inr [], (w', snd s @ [Ev_should_scan_file (path f),
                                  Ev_get_file_content (full_name r) (path f)])))
   \<and> (Ev_detect_secrets_in_text c p \<in> set (events_of s (snd (scan_file E r t f s))) \<longrightarrow>
        p = path f \<and> c \<noteq> []
        \<and> fst (get_file_content E (full_name r) (path f) (fst s)) = Inr (Some c))
   \<and> (Ev_detect_secrets_in_text c p \<in> set (events_of s (snd (scan_repository E r s))) \<longrightarrow>
        c \<noteq> [])"
proof -
  have one: "should_scan_file E (path f) = Inr True \<longrightarrow>
    get_file_content E (full_name r) (path f) (fst s) = (Inr content, w') \<longrightarrow>
    (content = None \<or> content = Some []) \<longrightarrow>
      scan_file E r t f s
        = (Inr [], (w', snd s @ [Ev_should_scan_file (path f),
                                  Ev_get_file_content (full_name r) (path f)]))"
    by (auto simp: scan_file_def call_def io_def)
  have two: "Ev_detect_secrets_in_text c p \<in> set (events_of s (snd (scan_file E r t f s))) \<longrightarrow>
        p = path f \<and> c \<noteq> []
        \<and> fst (get_file_content E (full_name r) (path f) (fst s)) = Inr (Some c)"
    by (auto simp: scan_file_def call_def io_def events_of_def truthy_iff
             split: prod.splits sum.splits if_splits)
  obtain fs s' where run: "scan_repository E r s = (fs, s')"
    by (cases "scan_repository E r s")
  from scan_repository_events [OF run] obtain evs
    where log: "snd s' = snd s @ Ev_now # Ev_get_repo_files (full_name r) # evs"
      and evs: "list_all (repo_event E (full_name r)) evs" by blast
  from log have ev: "events_of s s' = Ev_now # Ev_get_repo_files (full_name r) # evs"
    by (rule events_of_append)
  have three: "Ev_detect_secrets_in_text c p \<in> set (events_of s (snd (scan_repository E r s))) \<longrightarrow>
        c \<noteq> []"
  proof
    assume "Ev_detect_secrets_in_text c p \<in> set (events_of s (snd (scan_repository E r s)))"
    with run ev have "Ev_detect_secrets_in_text c p \<in> set evs" by simp
    with evs have "repo_event E (full_name r) (Ev_detect_secrets_in_text c p)"
      by (rule list_all_memD)
    then show "c \<noteq> []" by simp
  qed
  from one two three show ?thesis by blast
qed


theorem empty_content_not_detected_witness:
  "should_scan_file demo_env ''empty.txt'' = Inr True
   \<and> get_file_content demo_env ''alice/one'' ''empty.txt'' 0 = (Inr (Some []), 0)
   \<and> scan_file demo_env (mk_repo ''alice/one'') ''t'' \<lparr>path = ''empty.txt''\<rparr> (0, [])
       = (Inr [], (0, [Ev_should_scan_file ''empty.txt'',
                       Ev_get_file_content ''alice/one'' ''empty.txt'']))
   \<and> Ev_detect_secrets_in_text ''key = AKIA1234567890ABCDEF'' ''a.py''
       \<in> set (events_of (0, []) (snd (scan_file demo_env (mk_repo ''alice/one'') ''t'' \<lparr>path = ''a.py''\<rparr> (0, []))))
   \<and> Ev_detect_secrets_in_text ''key = AKIA1234567890ABCDEF'' ''a.py''
       \<in> set (events_of (0, []) (snd (scan_repository demo_env (mk_repo ''alice/one'') (0, []))))
   \<and> fst (get_file_content demo_env ''alice/one'' ''a.py'' 0) = Inr (Some ''key = AKIA1234567890ABCDEF'')
   \<and> ''key = AKIA1234567890ABCDEF'' \<noteq> []"
proof -
  have h1: "should_scan_file demo_env (path \<lparr>path = ''empty.txt''\<rparr>) = Inr True"
    by (simp add: demo_env_def)
  have h2: "get_file_content demo_env (full_name (mk_repo ''alice/one'')) (path \<lparr>path = ''empty.txt''\<rparr>)
              (fst (0::nat, [])) = (Inr (Some []), 0)"
    by (simp add: demo_env_def mk_repo_def)
  have h3: "Ev_detect_secrets_in_text ''key = AKIA1234567890ABCDEF'' ''a.py''
       \<in> set (events_of (0, []) (snd (scan_file demo_env (mk_repo ''alice/one'') ''t'' \<lparr>path = ''a.py''\<rparr> (0, []))))"
    by code_simp
  have h4: "Ev_detect_secrets_in_text ''key = AKIA1234567890ABCDEF'' ''a.py''
       \<in> set (events_of (0, []) (snd (scan_repository demo_env (mk_repo ''alice/one'') (0, []))))"
    by code_simp
  from empty_content_not_detected [of demo_env "\<lparr>path = ''empty.txt''\<rparr>" "mk_repo ''alice/one''"
      "(0, [])" "Some []" 0 "''t''" "''key = AKIA1234567890ABCDEF''" "''a.py''"] h1 h2
  have a: "scan_file demo_env (mk_repo ''alice/one'') ''t'' \<lparr>path = ''empty.txt''\<rparr> (0, [])
       = (Inr [], (0, [Ev_should_scan_file ''empty.txt'',
                       Ev_get_file_content ''alice/one'' ''empty.txt'']))"
    by (simp add: mk_repo_def)
  from empty_content_not_detected [of demo_env "\<lparr>path = ''a.py''\<rparr>" "mk_repo ''alice/one''"
      "(0, [])" None 0 "''t''" "''key = AKIA1234567890ABCDEF''" "''a.py''"] h3 h4
  have b: "fst (get_file_content demo_env ''alice/one'' ''a.py'' 0) = Inr (Some ''key = AKIA1234567890ABCDEF'')
       \<and> ''key = AKIA1234567890ABCDEF'' \<noteq> []"
    by (simp add: mk_repo_def)
  from a b h1 h2 h3 h4 show ?thesis by (simp add: mk_repo_def)
qed

subsection \<open>Enrichment of the findings\<close>

text \<open>
  Claim C10.  Within one call of \<open>_scan_repository\<close>, every finding appended to
  \<open>findings\<close> carries the \<open>url\<close> of the repository as \<open>repo_url\<close>, its \<open>full_name\<close> as
  \<open>repo_name\<close>, and as \<open>scan_time\<close> the one string formatted from the clock reading that
  opens the call, whether the \<open>try\<close> block is left by an exception or not.  The clock is
  read once, as the first call of the scan, before the files are listed.
\<close>

theorem findings_enriched_alike:
  assumes "collect_findings E r s = (x, raw, s')"
  shows "(\<forall>f \<in> set raw. repo_url f = Some (url r) \<and> repo_name f = Some (full_name r)
            \<and> scan_time f = Some (strftime E (fst (now E (fst s)))))
       \<and> (\<exists>rest. events_of s s' = Ev_now # rest \<and> Ev_now \<notin> set rest)
       \<and> (\<exists>rest. events_of s (snd (scan_repository E r s)) = Ev_now # rest \<and> Ev_now \<notin> set rest)"
proof -
  let ?t = "strftime E (fst (now E (fst s)))"
  have "\<exists>gs. raw = map (enrich r ?t) gs"
  proof -
    obtain d s1 where n: "io Ev_now (now E) s = (d, s1)" by (cases "io Ev_now (now E) s")
    then have d: "d = fst (now E (fst s))" by (simp add: io_eq)
    obtain l s2 where g: "io (Ev_get_repo_files (full_name r)) (get_repo_files E (full_name r)) s1 = (l, s2)"
      by (cases "io (Ev_get_repo_files (full_name r)) (get_repo_files E (full_name r)) s1")
    show ?thesis
    proof (cases l)
      case (Inl e)
      with assms n g have "raw = map (enrich r ?t) []" by (simp add: collect_findings_def)
      then show ?thesis by blast
    next
      case (Inr files)
      with assms n g d have "scan_files E r ?t files [] s2 = (x, raw, s')"
        by (simp add: collect_findings_def)
      from scan_files_enriched [OF this] show ?thesis by simp
    qed
  qed
  then have enriched: "\<forall>f \<in> set raw. repo_url f = Some (url r) \<and> repo_name f = Some (full_name r)
            \<and> scan_time f = Some ?t"
    by (auto simp: enrich_def)
  have no_now: "Ev_now \<notin> set evs" if "list_all (repo_event E (full_name r)) evs" for evs
  proof
    assume "Ev_now \<in> set evs"
    with that have "repo_event E (full_name r) Ev_now" by (rule list_all_memD)
    then show False by simp
  qed
  from collect_findings_events [OF assms] obtain evs
    where "snd s' = snd s @ Ev_now # Ev_get_repo_files (full_name r) # evs"
      and "list_all (repo_event E (full_name r)) evs" by blast
  then have one: "\<exists>rest. events_of s s' = Ev_now # rest \<and> Ev_now \<notin> set rest"
    using no_now by (simp add: events_of_append)
  obtain fs s'' where run: "scan_repository E r s = (fs, s'')"
    by (cases "scan_repository E r s")
  from scan_repository_events [OF run] obtain evs'
    where "snd s'' = snd s @ Ev_now # Ev_get_repo_files (full_name r) # evs'"
      and "list_all (repo_event E (full_name r)) evs'" by blast
  then have two: "\<exists>rest. events_of s (snd (scan_repository E r s)) = Ev_now # rest \<and> Ev_now \<notin> set rest"
    using no_now run by (simp add: events_of_append)
  from enriched one two show ?thesis by blast
qed

theorem findings_enriched_alike_witness:
  "fst (collect_findings demo_env (mk_repo ''bob/leaky'') (0, [])) = Some (Exception ''timeout'')
   \<and> map scan_time (fst (snd (collect_findings demo_env (mk_repo ''bob/leaky'') (0, []))))
       = [Some ''t'', Some ''t'', Some ''t'']
   \<and> map repo_name (fst (snd (collect_findings demo_env (mk_repo ''bob/leaky'') (0, []))))
       = [Some ''bob/leaky'', Some ''bob/leaky'', Some ''bob/leaky'']
   \<and> list_all (\<lambda>f. repo_url f = Some ''https://github.com/bob/leaky''
                   \<and> repo_name f = Some ''bob/leaky'' \<and> scan_time f = Some ''t'')
        (fst (snd (collect_findings demo_env (mk_repo ''bob/leaky'') (0, []))))"
proof -
  obtain x raw s' where h: "collect_findings demo_env (mk_repo ''bob/leaky'') (0, []) = (x, raw, s')"
    by (cases "collect_findings demo_env (mk_repo ''bob/leaky'') (0, [])")
  from findings_enriched_alike [OF h, THEN conjunct1]
  have "list_all (\<lambda>f. repo_url f = Some ''https://github.com/bob/leaky''
                   \<and> repo_name f = Some ''bob/leaky'' \<and> scan_time f = Some ''t'') raw"
    by (simp add: list_all_iff mk_repo_def demo_env_def)
  moreover have "fst (collect_findings demo_env (mk_repo ''bob/leaky'') (0, [])) = Some (Exception ''timeout'')"
    by code_simp
  moreover have "map scan_time (fst (snd (collect_findings demo_env (mk_repo ''bob/leaky'') (0, []))))
       = [Some ''t'', Some ''t'', Some ''t'']"
    by code_simp
  moreover have "map repo_name (fst (snd (collect_findings demo_env (mk_repo ''bob/leaky'') (0, []))))
       = [Some ''bob/leaky'', Some ''bob/leaky'', Some ''bob/leaky'']"
    by code_simp
  ultimately show ?thesis using h by simp
qed

subsection \<open>Deduplication before the confidence filter\<close>

text \<open>
  Claim C4.  A scan of a repository completes without an exception when the loop ends
  without one and neither \<open>deduplicate_findings\<close> nor \<open>filter_high_confidence\<close> raises.
  Then the returned list is \<open>filter_high_confidence\<close> of \<open>deduplicate_findings\<close> of the
  list that the loop collected, and the two calls are the last two of the scan: the filter
  is given the output of the deduplication, not the collected list.
\<close>

theorem filter_runs_on_dedup_output:
  assumes "collect_findings E r s = (None, raw, s1)"
      and "deduplicate_findings E raw = Inr deduped"
      and "filter_high_confidence E deduped = Inr kept"
  shows "scan_repository E r s
          = (kept, (fst s1, snd s1 @ [Ev_deduplicate_findings raw, Ev_filter_high_confidence deduped]))"
  using assms by (simp add: scan_repository_def call_def)

theorem filter_runs_on_dedup_output_witness:
  "collect_findings demo_env (mk_repo ''alice/one'') (0, [])
     = (None, map (enrich (mk_repo ''alice/one'') ''t'') [hit ''a.py'' 1, hit ''a.py'' 7, weak ''a.py'' 3],
        snd (snd (collect_findings demo_env (mk_repo ''alice/one'') (0, []))))
   \<and> deduplicate_findings demo_env
        (map (enrich (mk_repo ''alice/one'') ''t'') [hit ''a.py'' 1, hit ''a.py'' 7, weak ''a.py'' 3])
       = Inr (map (enrich (mk_repo ''alice/one'') ''t'') [hit ''a.py'' 1, weak ''a.py'' 3])
   \<and> filter_high_confidence demo_env
        (map (enrich (mk_repo ''alice/one'') ''t'') [hit ''a.py'' 1, weak ''a.py'' 3])
       = Inr [enrich (mk_repo ''alice/one'') ''t'' (hit ''a.py'' 1)]
   \<and> fst (scan_repository demo_env (mk_repo ''alice/one'') (0, []))
       = [enrich (mk_repo ''alice/one'') ''t'' (hit ''a.py'' 1)]"
proof -
  let ?r = "mk_repo ''alice/one''"
  let ?raw = "map (enrich ?r ''t'') [hit ''a.py'' 1, hit ''a.py'' 7, weak ''a.py'' 3]"
  let ?d = "map (enrich ?r ''t'') [hit ''a.py'' 1, weak ''a.py'' 3]"
  let ?k = "[enrich ?r ''t'' (hit ''a.py'' 1)]"
  let ?s1 = "snd (snd (collect_findings demo_env ?r (0, [])))"
  have "fst (collect_findings demo_env ?r (0, [])) = None" by code_simp
  moreover have "fst (snd (collect_findings demo_env ?r (0, []))) = ?raw" by code_simp
  ultimately have h1: "collect_findings demo_env ?r (0, []) = (None, ?raw, ?s1)"
    by (metis prod.collapse)
  have h2: "deduplicate_findings demo_env ?raw = Inr ?d" by code_simp
  have h3: "filter_high_confidence demo_env ?d = Inr ?k" by code_simp
  from filter_runs_on_dedup_output [OF h1 h2 h3]
  have "fst (scan_repository demo_env ?r (0, [])) = ?k" by simp
  with h1 h2 h3 show ?thesis by simp
qed

subsection \<open>Failure to resolve the target\<close>

text \<open>
  Claim C6.  When the listing of the repositories of a user (\<open>get_user_repos\<close>) or of an
  organization (\<open>get_org_repos\<close>) raises, \<open>scan_user\<close> or \<open>scan_organization\<close> raises the
  same exception: no report location is returned, and after the clock reading and the
  listing no call is made, so that no report is generated.
\<close>

theorem listing_failure_propagates:
  assumes "io Ev_now (now E) s = (d, s1)"
  shows "(get_user_repos E name (fst s1) = (Inl e, w2) \<longrightarrow>
            scan_user E name s = (Inl e, (w2, snd s @ [Ev_now, Ev_get_user_repos name]))
            \<and> reported (events_of s (snd (scan_user E name s))) = [])
       \<and> (get_org_repos E name (fst s1) = (Inl e, w2) \<longrightarrow>
            scan_organization E name s = (Inl e, (w2, snd s @ [Ev_now, Ev_get_org_repos name]))
            \<and> reported (events_of s (snd (scan_organization E name s))) = [])"
  using assms
  by (auto simp: scan_user_def scan_organization_def io_def events_of_def split: prod.splits)

theorem listing_failure_propagates_witness:
  "io Ev_now (now demo_env) (0, []) = (0, (1, [Ev_now]))
   \<and> get_user_repos demo_env ''zed'' 1 = (Inl (Exception ''Not Found''), 1)
   \<and> scan_user demo_env ''zed'' (0, [])
       = (Inl (Exception ''Not Found''), (1, [Ev_now, Ev_get_user_repos ''zed'']))
   \<and> get_org_repos demo_env ''zed'' 1 = (Inl (Exception ''Not Found''), 1)
   \<and> scan_organization demo_env ''zed'' (0, [])
       = (Inl (Exception ''Not Found''), (1, [Ev_now, Ev_get_org_repos ''zed'']))"
proof -
  have h0: "io Ev_now (now demo_env) (0, []) = (0, (1, [Ev_now]))"
    by (simp add: io_def demo_env_def)
  have h1: "get_user_repos demo_env ''zed'' 1 = (Inl (Exception ''Not Found''), 1)"
    by (simp add: demo_env_def)
  have h2: "get_org_repos demo_env ''zed'' 1 = (Inl (Exception ''Not Found''), 1)"
    by (simp add: demo_env_def)
  from listing_failure_propagates [OF h0, of "''zed''" "Exception ''Not Found''" 1] h1 h2
  show ?thesis using h0 by simp
qed

subsection \<open>The log of a scan of a target\<close>

lemma scan_target_unfold:
  "scan_target E tg s0 =
    (case io Ev_now (now E) s0 of
       (d, s1) \<Rightarrow>
         (case io (resolve_event tg) (resolve E tg) s1 of
            (Inl e, s2) \<Rightarrow> (Inl e, s2)
          | (Inr repos, s2) \<Rightarrow>
              (case scan_repos E repos [] s2 of
                 (all, s3) \<Rightarrow>
                   (case io (Ev_generate_report all d (scan_type tg))
                            (generate_report E all d (scan_type tg)) s3 of
                      (Inl e, s4) \<Rightarrow> (Inl e, s4)
                    | (Inr p, s4) \<Rightarrow>
                        (case io (Ev_generate_summary p (length all))
                                 (generate_summary E p (length all)) s4 of
                           (Inl e, s5) \<Rightarrow> (Inl e, s5)
                         | (Inr x, s5) \<Rightarrow> (Inr p, s5))))))"
  by (cases tg)
     (simp_all add: scan_user_def scan_organization_def scan_ai_projects_def
               split: prod.splits sum.splits)


lemma report_tail_log:
  assumes "(case io (Ev_generate_report all d l) (generate_report E all d l) s3 of
              (Inl e, s4) \<Rightarrow> (Inl e, s4)
            | (Inr p, s4) \<Rightarrow>
                (case io (Ev_generate_summary p (length all)) (generate_summary E p (length all)) s4 of
                   (Inl e, s5) \<Rightarrow> (Inl e, s5)
                 | (Inr x, s5) \<Rightarrow> (Inr p, s5))) = (res, s')"
  shows "\<exists>tail. snd s' = snd s3 @ Ev_generate_report all d l # tail
           \<and> (tail = [] \<or> (\<exists>p. tail = [Ev_generate_summary p (length all)]))"
  using assms by (auto simp: io_def split: prod.splits sum.splits)


subsection \<open>Aggregation over the repositories\<close>



subsection \<open>The scan of a single repository\<close>

text \<open>
  Claim C7.  \<open>scan_single_repo R\<close> builds the repository dictionary itself from \<open>R\<close>: full
  name \<open>R\<close>, URL \<open>https://github.com/\<close> followed by \<open>R\<close>, clone URL the same followed by
  \<open>.git\<close>; and it scans that dictionary.  Its calls are the clock reading, the calls of the
  scan of that repository (clock reading, file listing of \<open>R\<close>, then calls of the file
  loop, deduplication and filter), the one call of \<open>generate_report\<close> with the findings of
  that scan, the start time and the label \<open>single:\<close> followed by \<open>R\<close>, and at most the
  summary.  No listing of the repositories of a user, of an organization or of a search is
  called.  When \<open>generate_report\<close> and \<open>generate_summary\<close> return, the scan returns the
  location that \<open>generate_report\<close> gave, in the world that the two calls left.  Nothing
  depends on the form of \<open>R\<close>.
\<close>

theorem single_repo_scan:
  assumes "io Ev_now (now E) s = (d, s1)"
      and "scan_repository E \<lparr>full_name = R, url = ''https://github.com/'' @ R,
                               clone_url = ''https://github.com/'' @ R @ ''.git''\<rparr> s1 = (fs, s2)"
  shows "repo_info R = \<lparr>full_name = R, url = ''https://github.com/'' @ R,
                         clone_url = ''https://github.com/'' @ R @ ''.git''\<rparr>
       \<and> (\<exists>evs tail.
            events_of s (snd (scan_single_repo E R s))
              = Ev_now # Ev_now # Ev_get_repo_files R # evs
                  @ Ev_generate_report fs d (''single:'' @ R) # tail
            \<and> events_of s1 s2 = Ev_now # Ev_get_repo_files R # evs
            \<and> list_all (repo_event E R) evs
            \<and> (tail = [] \<or> (\<exists>p. tail = [Ev_generate_summary p (length fs)])))
       \<and> reported (events_of s (snd (scan_single_repo E R s))) = [fs]
       \<and> Ev_get_user_repos u \<notin> set (events_of s (snd (scan_single_repo E R s)))
       \<and> Ev_get_org_repos u \<notin> set (events_of s (snd (scan_single_repo E R s)))
       \<and> Ev_search_ai_repos m \<notin> set (events_of s (snd (scan_single_repo E R s)))
       \<and> (io (Ev_generate_report fs d (''single:'' @ R))
              (generate_report E fs d (''single:'' @ R)) s2 = (Inr p, s3) \<longrightarrow>
           io (Ev_generate_summary p (length fs)) (generate_summary E p (length fs)) s3
             = (Inr x, s4) \<longrightarrow>
           scan_single_repo E R s = (Inr p, s4))"
proof -
  let ?r = "\<lparr>full_name = R, url = ''https://github.com/'' @ R,
             clone_url = ''https://github.com/'' @ R @ ''.git''\<rparr>"
  have info: "repo_info R = ?r" by (simp add: repo_info_def)
  obtain res s' where run: "scan_single_repo E R s = (res, s')"
    by (cases "scan_single_repo E R s")
  from scan_repository_events [OF assms(2)] obtain evs
    where e: "snd s2 = snd s1 @ Ev_now # Ev_get_repo_files R # evs"
             "list_all (repo_event E R) evs" by auto
  from assms(1) have l1: "snd s1 = snd s @ [Ev_now]" by (simp add: io_eq)
  from run assms info have tail_eq:
    "(case io (Ev_generate_report fs d (''single:'' @ R)) (generate_report E fs d (''single:'' @ R)) s2 of
        (Inl e, s4) \<Rightarrow> (Inl e, s4)
      | (Inr p, s4) \<Rightarrow>
          (case io (Ev_generate_summary p (length fs)) (generate_summary E p (length fs)) s4 of
             (Inl e, s5) \<Rightarrow> (Inl e, s5)
           | (Inr x, s5) \<Rightarrow> (Inr p, s5))) = (res, s')"
    by (simp add: scan_single_repo_def)
  have result: "io (Ev_generate_report fs d (''single:'' @ R))
              (generate_report E fs d (''single:'' @ R)) s2 = (Inr p, s3) \<longrightarrow>
           io (Ev_generate_summary p (length fs)) (generate_summary E p (length fs)) s3
             = (Inr x, s4) \<longrightarrow>
           scan_single_repo E R s = (Inr p, s4)"
    using tail_eq run by auto
  from report_tail_log [OF tail_eq] obtain tail
    where t: "snd s' = snd s2 @ Ev_generate_report fs d (''single:'' @ R) # tail"
             "tail = [] \<or> (\<exists>p. tail = [Ev_generate_summary p (length fs)])" by blast
  let ?all = "Ev_now # Ev_now # Ev_get_repo_files R # evs
                  @ Ev_generate_report fs d (''single:'' @ R) # tail"
  from e l1 t have "snd s' = snd s @ ?all" by simp
  then have ev: "events_of s s' = ?all" by (rule events_of_append)
  from e(1) have ev1: "events_of s1 s2 = Ev_now # Ev_get_repo_files R # evs"
    by (rule events_of_append)
  from e(2) have sc: "list_all scan_event evs"
    by (auto simp: list_all_iff intro: repo_event_scan_event)
  from t(2) have rt: "reported tail = []" by auto
  from sc rt have rep: "reported ?all = [fs]"
    by (simp add: reported_append reported_scan_events)
  have ne: "x \<notin> set evs" if "\<not> scan_event x" for x
  proof
    assume "x \<in> set evs"
    with sc have "scan_event x" by (rule list_all_memD)
    with that show False by simp
  qed
  have "Ev_get_user_repos u \<notin> set ?all"
    using t(2) ne [of "Ev_get_user_repos u"] by auto
  moreover have "Ev_get_org_repos u \<notin> set ?all"
    using t(2) ne [of "Ev_get_org_repos u"] by auto
  moreover have "Ev_search_ai_repos m \<notin> set ?all"
    using t(2) ne [of "Ev_search_ai_repos m"] by auto
  ultimately have listing: "Ev_get_user_repos u \<notin> set ?all \<and> Ev_get_org_repos u \<notin> set ?all
      \<and> Ev_search_ai_repos m \<notin> set ?all" by blast
  from ev ev1 e(2) t(2) have logs:
    "\<exists>evs tail. events_of s s' = Ev_now # Ev_now # Ev_get_repo_files R # evs
                  @ Ev_generate_report fs d (''single:'' @ R) # tail
            \<and> events_of s1 s2 = Ev_now # Ev_get_repo_files R # evs
            \<and> list_all (repo_event E R) evs
            \<and> (tail = [] \<or> (\<exists>p. tail = [Ev_generate_summary p (length fs)]))"
    by blast
  from run ev rep listing logs have rest:
    "(\<exists>evs tail.
            events_of s (snd (scan_single_repo E R s))
              = Ev_now # Ev_now # Ev_get_repo_files R # evs
                  @ Ev_generate_report fs d (''single:'' @ R) # tail
            \<and> events_of s1 s2 = Ev_now # Ev_get_repo_files R # evs
            \<and> list_all (repo_event E R) evs
            \<and> (tail = [] \<or> (\<exists>p. tail = [Ev_generate_summary p (length fs)])))
       \<and> reported (events_of s (snd (scan_single_repo E R s))) = [fs]
       \<and> Ev_get_user_repos u \<notin> set (events_of s (snd (scan_single_repo E R s)))
       \<and> Ev_get_org_repos u \<notin> set (events_of s (snd (scan_single_repo E R s)))
       \<and> Ev_search_ai_repos m \<notin> set (events_of s (snd (scan_single_repo E R s)))"
    by simp
  from info rest result show ?thesis by (intro conjI) blast+
qed

theorem single_repo_scan_witness:
  "io Ev_now (now demo_env) (0, []) = (0, (1, [Ev_now]))
   \<and> repo_info ''carol/app'' = \<lparr>full_name = ''carol/app'', url = ''https://github.com/carol/app'',
                                 clone_url = ''https://github.com/carol/app.git''\<rparr>
   \<and> fst (scan_repository demo_env \<lparr>full_name = ''carol/app'', url = ''https://github.com/carol/app'',
                                     clone_url = ''https://github.com/carol/app.git''\<rparr> (1, [Ev_now]))
       = [enrich (mk_repo ''carol/app'') ''t+'' (hit ''a.py'' 1)]
   \<and> reported (events_of (0, []) (snd (scan_single_repo demo_env ''carol/app'' (0, []))))
       = [[enrich (mk_repo ''carol/app'') ''t+'' (hit ''a.py'' 1)]]
   \<and> Ev_generate_report [enrich (mk_repo ''carol/app'') ''t+'' (hit ''a.py'' 1)] 0 ''single:carol/app''
       \<in> set (events_of (0, []) (snd (scan_single_repo demo_env ''carol/app'' (0, []))))
   \<and> fst (scan_single_repo demo_env ''carol/app'' (0, [])) = Inr ''reports/single:carol/app.md''
   \<and> fst (snd (scan_single_repo demo_env ''carol/app'' (0, []))) = 2"
proof -
  let ?r = "\<lparr>full_name = ''carol/app'', url = ''https://github.com/'' @ ''carol/app'',
             clone_url = ''https://github.com/'' @ ''carol/app'' @ ''.git''\<rparr>"
  let ?fs = "[enrich (mk_repo ''carol/app'') ''t+'' (hit ''a.py'' 1)]"
  let ?s2 = "snd (scan_repository demo_env ?r (1, [Ev_now]))"
  let ?rep = "Ev_generate_report ?fs 0 (''single:'' @ ''carol/app'')"
  let ?p = "''reports/single:carol/app.md''"
  let ?s3 = "(fst ?s2, snd ?s2 @ [?rep])"
  let ?sum = "Ev_generate_summary ?p (length ?fs)"
  let ?s4 = "(fst ?s3, snd ?s3 @ [?sum])"
  have h0: "io Ev_now (now demo_env) (0, []) = (0, (1, [Ev_now]))"
    by (simp add: io_def demo_env_def)
  have hf: "fst (scan_repository demo_env ?r (1, [Ev_now])) = ?fs" by code_simp
  have h1: "scan_repository demo_env ?r (1, [Ev_now]) = (?fs, ?s2)"
    by (rule prod_eqI) (simp_all only: hf fst_conv snd_conv)
  have c: "fst (scan_repository demo_env \<lparr>full_name = ''carol/app'', url = ''https://github.com/carol/app'',
                                     clone_url = ''https://github.com/carol/app.git''\<rparr> (1, [Ev_now]))
       = ?fs" by code_simp
  have w2: "fst ?s2 = 2" by code_simp
  have h2: "io ?rep (generate_report demo_env ?fs 0 (''single:'' @ ''carol/app'')) ?s2 = (Inr ?p, ?s3)"
    unfolding io_def demo_env_def by simp
  have h3: "io ?sum (generate_summary demo_env ?p (length ?fs)) ?s3 = (Inr ''summary'', ?s4)"
    unfolding io_def demo_env_def by simp
  note t = single_repo_scan [OF h0 h1, where u = "[]" and m = 0 and p = ?p and ?s3.0 = ?s3
      and x = "''summary''" and ?s4.0 = ?s4]
  from t have i: "repo_info ''carol/app'' = ?r" by (rule conjunct1)
  then have i': "repo_info ''carol/app''
      = \<lparr>full_name = ''carol/app'', url = ''https://github.com/carol/app'',
         clone_url = ''https://github.com/carol/app.git''\<rparr>"
    by simp
  from t have a: "reported (events_of (0, []) (snd (scan_single_repo demo_env ''carol/app'' (0, [])))) = [?fs]"
    by (rule conjunct2 [THEN conjunct2, THEN conjunct1])
  from t obtain evs tail where
    "events_of (0, []) (snd (scan_single_repo demo_env ''carol/app'' (0, [])))
       = Ev_now # Ev_now # Ev_get_repo_files ''carol/app'' # evs
           @ Ev_generate_report ?fs 0 (''single:'' @ ''carol/app'') # tail"
    by blast
  then have "Ev_generate_report ?fs 0 (''single:'' @ ''carol/app'')
       \<in> set (events_of (0, []) (snd (scan_single_repo demo_env ''carol/app'' (0, []))))"
    by simp
  then have b: "Ev_generate_report ?fs 0 ''single:carol/app''
       \<in> set (events_of (0, []) (snd (scan_single_repo demo_env ''carol/app'' (0, []))))"
    by simp
  note imp = t [THEN conjunct2, THEN conjunct2, THEN conjunct2, THEN conjunct2, THEN conjunct2,
                THEN conjunct2]
  from imp [THEN mp, THEN mp, OF h2 h3]
  have r: "scan_single_repo demo_env ''carol/app'' (0, []) = (Inr ?p, ?s4)" .
  from r have r1: "fst (scan_single_repo demo_env ''carol/app'' (0, [])) = Inr ?p"
    by (simp only: fst_conv)
  from r w2 have r2: "fst (snd (scan_single_repo demo_env ''carol/app'' (0, []))) = 2"
    by (simp only: fst_conv snd_conv)
  from h0 i' c a b r1 r2 show ?thesis by (intro conjI)
qed

subsection \<open>Exceptions inside the scan of a repository\<close>

lemma scan_files_append:
  "scan_files E r t (pre @ rest) acc s =
    (case scan_files E r t pre acc s of
       (Some e, a, s') \<Rightarrow> (Some e, a, s')
     | (None, a, s') \<Rightarrow> scan_files E r t rest a s')"
  by (induction pre arbitrary: acc s) (simp_all split: prod.splits sum.splits)

lemma listing_failure_no_findings:
  assumes "get_repo_files E (full_name r) (snd (now E (fst sa))) = (Inl e, w')"
  shows "scan_repository E r sa = ([], (w', snd sa @ [Ev_now, Ev_get_repo_files (full_name r)]))"
proof -
  from assms have "collect_findings E r sa
      = (Some e, [], (w', snd sa @ [Ev_now, Ev_get_repo_files (full_name r)]))"
    by (auto simp: collect_findings_def io_def split: prod.splits)
  then show ?thesis by (simp add: scan_repository_def)
qed

text \<open>
  Claim C1, as the code has it.  In a scan of a user, an organization or the AI projects
  whose target is resolved and whose report calls return: the scan returns the report
  location; the files of every repository of the target are listed, whatever happened in
  the repositories before it; a repository whose file listing raises adds no finding, and
  the loop goes on with the repositories after it; so with three repositories of which the
  second cannot be listed, the findings are those of the first followed by those of the
  third.  \<open>_scan_repository\<close> returns a list in every case (see the type of
  \<open>scan_repository\<close>), so no exception of one repository reaches the loop.
\<close>

theorem repository_fault_isolation:
  assumes "io Ev_now (now E) s = (d, s1)"
      and "io (resolve_event tg) (resolve E tg) s1 = (Inr repos, s2)"
      and "scan_repos E repos [] s2 = (all, s3)"
      and "io (Ev_generate_report all d (scan_type tg)) (generate_report E all d (scan_type tg)) s3
             = (Inr p, s4)"
      and "io (Ev_generate_summary p (length all)) (generate_summary E p (length all)) s4
             = (Inr x, s5)"
  shows "scan_target E tg s = (Inr p, s5)
       \<and> (\<forall>r \<in> set repos. Ev_get_repo_files (full_name r) \<in> set (events_of s2 s3))
       \<and> (get_repo_files E (full_name r) (snd (now E (fst sa))) = (Inl e, w') \<longrightarrow>
            scan_repository E r sa = ([], (w', snd sa @ [Ev_now, Ev_get_repo_files (full_name r)]))
            \<and> scan_repos E (r # rest) acc sa
                = scan_repos E rest acc (w', snd sa @ [Ev_now, Ev_get_repo_files (full_name r)]))
       \<and> (repos = [r1, r2, r3] \<longrightarrow>
            scan_repository E r1 s2 = (f1, sa1) \<longrightarrow>
            get_repo_files E (full_name r2) (snd (now E (fst sa1))) = (Inl e2, w2) \<longrightarrow>
            scan_repository E r3 (w2, snd sa1 @ [Ev_now, Ev_get_repo_files (full_name r2)]) = (f3, sa3) \<longrightarrow>
            all = f1 @ f3)"
proof -
  have ret: "scan_target E tg s = (Inr p, s5)"
    using assms by (simp add: scan_target_unfold)
  from scan_repos_events [OF assms(3)] obtain evs
    where "snd s3 = snd s2 @ evs"
      and "\<forall>r \<in> set repos. Ev_get_repo_files (full_name r) \<in> set evs" by blast
  then have listed: "\<forall>r \<in> set repos. Ev_get_repo_files (full_name r) \<in> set (events_of s2 s3)"
    by (simp add: events_of_append)
  have skip: "get_repo_files E (full_name r) (snd (now E (fst sa))) = (Inl e, w') \<longrightarrow>
            scan_repository E r sa = ([], (w', snd sa @ [Ev_now, Ev_get_repo_files (full_name r)]))
            \<and> scan_repos E (r # rest) acc sa
                = scan_repos E rest acc (w', snd sa @ [Ev_now, Ev_get_repo_files (full_name r)])"
    by (simp add: listing_failure_no_findings)
  have three: "repos = [r1, r2, r3] \<longrightarrow>
            scan_repository E r1 s2 = (f1, sa1) \<longrightarrow>
            get_repo_files E (full_name r2) (snd (now E (fst sa1))) = (Inl e2, w2) \<longrightarrow>
            scan_repository E r3 (w2, snd sa1 @ [Ev_now, Ev_get_repo_files (full_name r2)]) = (f3, sa3) \<longrightarrow>
            all = f1 @ f3"
    using assms(3) by (auto simp: listing_failure_no_findings)
  from ret listed skip three show ?thesis by blast
qed

theorem repository_fault_isolation_witness:
  "fst (scan_target demo_env (User ''alice'') (0, [])) = Inr ''reports/user:alice.md''
   \<and> get_repo_files demo_env ''alice/two'' 3 = (Inl (Exception ''rate limit''), 3)
   \<and> fst (scan_repository demo_env (mk_repo ''alice/two'') (2, [])) = []
   \<and> Ev_get_repo_files ''alice/three''
        \<in> set (events_of (1, [Ev_now, Ev_get_user_repos ''alice''])
              (snd (scan_repos demo_env
                     [mk_repo ''alice/one'', mk_repo ''alice/two'', mk_repo ''alice/three''] []
                     (1, [Ev_now, Ev_get_user_repos ''alice'']))))
   \<and> fst (scan_repos demo_env
             [mk_repo ''alice/one'', mk_repo ''alice/two'', mk_repo ''alice/three''] []
             (1, [Ev_now, Ev_get_user_repos ''alice'']))
       = fst (scan_repository demo_env (mk_repo ''alice/one'') (1, [Ev_now, Ev_get_user_repos ''alice'']))
         @ fst (scan_repository demo_env (mk_repo ''alice/three'')
                 (3, snd (snd (scan_repository demo_env (mk_repo ''alice/one'')
                                 (1, [Ev_now, Ev_get_user_repos ''alice''])))
                     @ [Ev_now, Ev_get_repo_files ''alice/two'']))"
proof -
  let ?E = "demo_env"
  let ?tg = "User ''alice''"
  let ?one = "mk_repo ''alice/one''"
  let ?two = "mk_repo ''alice/two''"
  let ?three = "mk_repo ''alice/three''"
  let ?repos = "[?one, ?two, ?three]"
  let ?s2 = "(1::nat, [Ev_now, Ev_get_user_repos ''alice''])"
  let ?all = "fst (scan_repos ?E ?repos [] ?s2)"
  let ?s3 = "snd (scan_repos ?E ?repos [] ?s2)"
  let ?rep = "Ev_generate_report ?all 0 (scan_type ?tg)"
  let ?s4 = "(fst ?s3, snd ?s3 @ [?rep])"
  let ?p = "''reports/user:alice.md''"
  let ?sum = "Ev_generate_summary ?p (length ?all)"
  let ?s5 = "(fst ?s4, snd ?s4 @ [?sum])"
  let ?f1 = "fst (scan_repository ?E ?one ?s2)"
  let ?sa1 = "snd (scan_repository ?E ?one ?s2)"
  let ?sb = "(3::nat, snd ?sa1 @ [Ev_now, Ev_get_repo_files (full_name ?two)])"
  let ?f3 = "fst (scan_repository ?E ?three ?sb)"
  let ?sa3 = "snd (scan_repository ?E ?three ?sb)"
  have h0: "io Ev_now (now ?E) (0, []) = (0, (1, [Ev_now]))"
    by (simp add: io_def demo_env_def)
  have h1: "io (resolve_event ?tg) (resolve ?E ?tg) (1, [Ev_now]) = (Inr ?repos, ?s2)"
    by (simp add: io_def demo_env_def)
  have h2: "scan_repos ?E ?repos [] ?s2 = (?all, ?s3)"
    by (rule prod.collapse [symmetric])
  have h3: "io ?rep (generate_report ?E ?all 0 (scan_type ?tg)) ?s3 = (Inr ?p, ?s4)"
    unfolding io_def demo_env_def by simp
  have h4: "io ?sum (generate_summary ?E ?p (length ?all)) ?s4 = (Inr ''summary'', ?s5)"
    unfolding io_def demo_env_def by simp
  note t = repository_fault_isolation [OF h0 h1 h2 h3 h4,
      where r = ?two and sa = "(2, [])" and e = "Exception ''rate limit''" and w' = 3
        and ?r1.0 = ?one and ?r2.0 = ?two and ?r3.0 = ?three and ?f1.0 = ?f1 and ?sa1.0 = ?sa1
        and ?e2.0 = "Exception ''rate limit''" and ?w2.0 = 3 and ?f3.0 = ?f3 and ?sa3.0 = ?sa3
        and rest = "[]" and acc = "[]"]
  have a: "fst (scan_target ?E ?tg (0, [])) = Inr ?p"
    using t [THEN conjunct1] by simp
  have k: "get_repo_files ?E (full_name ?two) (snd (now ?E (fst (2::nat, []::event list))))
             = (Inl (Exception ''rate limit''), 3)"
    by (simp add: demo_env_def mk_repo_def)
  have k': "get_repo_files ?E ''alice/two'' 3 = (Inl (Exception ''rate limit''), 3)"
    by (simp add: demo_env_def)
  from t [THEN conjunct2, THEN conjunct2, THEN conjunct1, THEN mp, OF k]
  have b: "fst (scan_repository ?E ?two (2, [])) = []" by simp
  from t [THEN conjunct2, THEN conjunct1]
  have c: "Ev_get_repo_files ''alice/three'' \<in> set (events_of ?s2 ?s3)"
    by (simp add: mk_repo_def)
  have q1: "scan_repository ?E ?one ?s2 = (?f1, ?sa1)" by (rule prod.collapse [symmetric])
  have "fst ?sa1 = 2" by code_simp
  then have q2: "get_repo_files ?E (full_name ?two) (snd (now ?E (fst ?sa1)))
             = (Inl (Exception ''rate limit''), 3)"
    by (simp add: demo_env_def mk_repo_def)
  have q3: "scan_repository ?E ?three ?sb = (?f3, ?sa3)" by (rule prod.collapse [symmetric])
  from t [THEN conjunct2, THEN conjunct2, THEN conjunct2, THEN mp, THEN mp, THEN mp, THEN mp,
          OF refl q1 q2 q3]
  have d: "?all = ?f1 @ ?f3" .
  then have d': "?all = ?f1 @ fst (scan_repository ?E ?three
                 (3, snd ?sa1 @ [Ev_now, Ev_get_repo_files ''alice/two'']))"
    by (simp only: mk_repo_def repo.simps)
  from a k' b c d' show ?thesis by (intro conjI)
qed

text \<open>
  Counterexample to claim C1 as stated: not every exception leaves a repository without
  findings.  In the repository \<open>bob/leaky\<close> the fetch of
  the second file raises, after the first file gave three findings: the scan of the
  repository returns these three, and the report of the user \<open>bob\<close> holds them between the
  findings of the two other repositories.
\<close>

theorem partial_findings_counterexample:
  "fst (collect_findings demo_env (mk_repo ''bob/leaky'') (2, [])) = Some (Exception ''timeout'')
   \<and> fst (scan_repository demo_env (mk_repo ''bob/leaky'') (2, []))
       = map (enrich (mk_repo ''bob/leaky'') ''t++'') [hit ''a.py'' 1, hit ''a.py'' 7, weak ''a.py'' 3]
   \<and> fst (scan_user demo_env ''bob'' (0, [])) = Inr ''reports/user:bob.md''
   \<and> map (map repo_name) (reported (snd (snd (scan_user demo_env ''bob'' (0, [])))))
       = [[Some ''bob/one'', Some ''bob/leaky'', Some ''bob/leaky'', Some ''bob/leaky'',
           Some ''bob/three'']]"
  by code_simp

text \<open>
  Claim C2, as the code has it.  The \<open>try\<close> block encloses the whole loop, not one pass.
  When a call for the file \<open>f\<close> raises, after the files \<open>pre\<close> were scanned without an
  exception, the loop is left at once: the \<open>try\<close> block ends with that exception, with the
  findings of \<open>pre\<close> and in the state that the failing call left, whatever files \<open>post\<close>
  follow; the scan of the repository makes no call after the failing one.
\<close>

theorem loop_ends_at_failing_file:
  assumes "io Ev_now (now E) s0 = (d, sa)"
      and "io (Ev_get_repo_files (full_name r)) (get_repo_files E (full_name r)) sa
             = (Inr (pre @ f # post), s)"
      and "scan_files E r (strftime E d) pre [] s = (None, acc1, s1)"
      and "scan_file E r (strftime E d) f s1 = (Inl e, s2)"
  shows "scan_files E r (strftime E d) (pre @ f # post) [] s = (Some e, acc1, s2)
       \<and> collect_findings E r s0 = (Some e, acc1, s2)
       \<and> snd (scan_repository E r s0) = s2"
proof -
  from assms(3,4) have loop: "scan_files E r (strftime E d) (pre @ f # post) [] s = (Some e, acc1, s2)"
    by (simp add: scan_files_append)
  with assms(1,2) have c: "collect_findings E r s0 = (Some e, acc1, s2)"
    by (simp add: collect_findings_def)
  then have "snd (scan_repository E r s0) = s2" by (simp add: scan_repository_def)
  with loop c show ?thesis by simp
qed

theorem loop_ends_at_failing_file_witness:
  "scan_file demo_env (mk_repo ''bob/leaky'') ''t'' \<lparr>path = ''bad.py''\<rparr>
      (1, [Ev_now, Ev_get_repo_files ''bob/leaky'', Ev_should_scan_file ''a.py'',
           Ev_get_file_content ''bob/leaky'' ''a.py'',
           Ev_detect_secrets_in_text ''key = AKIA1234567890ABCDEF'' ''a.py''])
     = (Inl (Exception ''timeout''),
        (1, [Ev_now, Ev_get_repo_files ''bob/leaky'', Ev_should_scan_file ''a.py'',
             Ev_get_file_content ''bob/leaky'' ''a.py'',
             Ev_detect_secrets_in_text ''key = AKIA1234567890ABCDEF'' ''a.py'',
             Ev_should_scan_file ''bad.py'', Ev_get_file_content ''bob/leaky'' ''bad.py'']))
   \<and> collect_findings demo_env (mk_repo ''bob/leaky'') (0, [])
     = (Some (Exception ''timeout''),
        map (enrich (mk_repo ''bob/leaky'') ''t'') [hit ''a.py'' 1, hit ''a.py'' 7, weak ''a.py'' 3],
        (1, [Ev_now, Ev_get_repo_files ''bob/leaky'', Ev_should_scan_file ''a.py'',
             Ev_get_file_content ''bob/leaky'' ''a.py'',
             Ev_detect_secrets_in_text ''key = AKIA1234567890ABCDEF'' ''a.py'',
             Ev_should_scan_file ''bad.py'', Ev_get_file_content ''bob/leaky'' ''bad.py'']))
   \<and> snd (scan_repository demo_env (mk_repo ''bob/leaky'') (0, []))
     = (1, [Ev_now, Ev_get_repo_files ''bob/leaky'', Ev_should_scan_file ''a.py'',
            Ev_get_file_content ''bob/leaky'' ''a.py'',
            Ev_detect_secrets_in_text ''key = AKIA1234567890ABCDEF'' ''a.py'',
            Ev_should_scan_file ''bad.py'', Ev_get_file_content ''bob/leaky'' ''bad.py''])"
proof -
  let ?r = "mk_repo ''bob/leaky''"
  let ?s = "(1::nat, [Ev_now, Ev_get_repo_files ''bob/leaky''])"
  let ?s1 = "(1::nat, [Ev_now, Ev_get_repo_files ''bob/leaky'', Ev_should_scan_file ''a.py'',
           Ev_get_file_content ''bob/leaky'' ''a.py'',
           Ev_detect_secrets_in_text ''key = AKIA1234567890ABCDEF'' ''a.py''])"
  let ?s2 = "(1::nat, [Ev_now, Ev_get_repo_files ''bob/leaky'', Ev_should_scan_file ''a.py'',
             Ev_get_file_content ''bob/leaky'' ''a.py'',
             Ev_detect_secrets_in_text ''key = AKIA1234567890ABCDEF'' ''a.py'',
             Ev_should_scan_file ''bad.py'', Ev_get_file_content ''bob/leaky'' ''bad.py''])"
  let ?acc = "map (enrich ?r ''t'') [hit ''a.py'' 1, hit ''a.py'' 7, weak ''a.py'' 3]"
  have h0: "io Ev_now (now demo_env) (0, []) = (0, (1, [Ev_now]))"
    by (simp add: io_def demo_env_def)
  have h1: "io (Ev_get_repo_files (full_name ?r)) (get_repo_files demo_env (full_name ?r)) (1, [Ev_now])
      = (Inr ([\<lparr>path = ''a.py''\<rparr>] @ \<lparr>path = ''bad.py''\<rparr> # [\<lparr>path = ''c.py''\<rparr>]), ?s)"
    by (simp add: io_def demo_env_def mk_repo_def)
  have h2: "scan_files demo_env ?r (strftime demo_env 0) [\<lparr>path = ''a.py''\<rparr>] [] ?s = (None, ?acc, ?s1)"
    by code_simp
  have h3: "scan_file demo_env ?r (strftime demo_env 0) \<lparr>path = ''bad.py''\<rparr> ?s1
      = (Inl (Exception ''timeout''), ?s2)"
    by code_simp
  have h3': "scan_file demo_env ?r ''t'' \<lparr>path = ''bad.py''\<rparr> ?s1
      = (Inl (Exception ''timeout''), ?s2)"
    by code_simp
  note t = loop_ends_at_failing_file [OF h0 h1 h2 h3]
  from h3' t [THEN conjunct2, THEN conjunct1] t [THEN conjunct2, THEN conjunct2]
  show ?thesis by (intro conjI)
qed

text \<open>
  Counterexample to claim C2 as stated, in the repository \<open>bob/leaky\<close>: the fetch of \<open>bad.py\<close> raises;
  \<open>c.py\<close>, the file after it, would give three findings, but neither the file filter nor
  the fetch is called for it, and every returned finding is of \<open>a.py\<close>.
\<close>

theorem later_files_counterexample:
  "get_repo_files demo_env ''bob/leaky'' 1
     = (Inr [\<lparr>path = ''a.py''\<rparr>, \<lparr>path = ''bad.py''\<rparr>, \<lparr>path = ''c.py''\<rparr>], 1)
   \<and> fst (scan_file demo_env (mk_repo ''bob/leaky'') ''t'' \<lparr>path = ''bad.py''\<rparr> (1, []))
       = Inl (Exception ''timeout'')
   \<and> fst (scan_file demo_env (mk_repo ''bob/leaky'') ''t'' \<lparr>path = ''c.py''\<rparr> (1, []))
       = Inr (map (enrich (mk_repo ''bob/leaky'') ''t'') [hit ''c.py'' 1, hit ''c.py'' 7, weak ''c.py'' 3])
   \<and> Ev_should_scan_file ''c.py''
       \<notin> set (snd (snd (scan_repository demo_env (mk_repo ''bob/leaky'') (0, []))))
   \<and> Ev_get_file_content ''bob/leaky'' ''c.py''
       \<notin> set (snd (snd (scan_repository demo_env (mk_repo ''bob/leaky'') (0, []))))
   \<and> map file_path (fst (scan_repository demo_env (mk_repo ''bob/leaky'') (0, [])))
       = [''a.py'', ''a.py'', ''a.py'']"
  by code_simp

subsection \<open>The invariant of the returned findings\<close>

text \<open>
  The deduplication of the specification leaves no key twice, and the confidence filter
  after it leaves no confidence below the threshold.
\<close>

lemma absorb_keys:
  "set (map dedup_key (absorb f gs)) = insert (dedup_key f) (set (map dedup_key gs))"
  by (induction gs) auto

lemma absorb_distinct:
  "distinct (map dedup_key gs) \<Longrightarrow> distinct (map dedup_key (absorb f gs))"
proof (induction gs)
  case Nil
  then show ?case by simp
next
  case (Cons g gs)
  show ?case
  proof (cases "dedup_key g = dedup_key f")
    case True
    with Cons.prems show ?thesis by simp
  next
    case False
    from Cons have "distinct (map dedup_key (absorb f gs))" by simp
    moreover from Cons.prems False have "dedup_key g \<notin> set (map dedup_key (absorb f gs))"
      unfolding absorb_keys by simp
    ultimately show ?thesis using False by simp
  qed
qed

lemma spec_deduplicate_findings_distinct:
  "distinct (map dedup_key (spec_deduplicate_findings fs))"
proof -
  have "distinct (map dedup_key survivors) \<Longrightarrow>
        distinct (map dedup_key (foldl (\<lambda>survivors f. absorb f survivors) survivors fs))"
    for survivors
    by (induction fs arbitrary: survivors) (simp_all add: absorb_distinct)
  then show ?thesis by (simp add: spec_deduplicate_findings_def)
qed

lemma spec_pipeline_invariant:
  "findings_invariant threshold
     (spec_filter_high_confidence threshold (spec_deduplicate_findings fs))"
  by (simp add: findings_invariant_def spec_filter_high_confidence_def list_all_iff
                distinct_map_filter spec_deduplicate_findings_distinct)

text \<open>
  Claim C3, as the code has it.  With the deduplication and the confidence filter of the
  specification, the list that \<open>_scan_repository\<close> returns on a run that no exception
  ends has no confidence below the threshold and no key twice.  The list of a scan of
  several repositories is the concatenation of the lists of its repositories.
\<close>

theorem returned_findings_invariant:
  assumes "collect_findings E r s = (None, raw, s1)"
      and "deduplicate_findings E raw = Inr (spec_deduplicate_findings raw)"
      and "filter_high_confidence E (spec_deduplicate_findings raw)
             = Inr (spec_filter_high_confidence threshold (spec_deduplicate_findings raw))"
  shows "findings_invariant threshold (fst (scan_repository E r s))
       \<and> fst (scan_repos E repos [] s') = concat (repo_results E repos s')"
  using assms
  by (simp add: scan_repository_def call_def spec_pipeline_invariant scan_repos_concat)

theorem returned_findings_invariant_witness:
  "fst (collect_findings demo_env (mk_repo ''alice/one'') (0, [])) = None
   \<and> findings_invariant (1 / 2) (fst (scan_repository demo_env (mk_repo ''alice/one'') (0, [])))"
proof -
  let ?r = "mk_repo ''alice/one''"
  let ?c = "collect_findings demo_env ?r (0, [])"
  have n: "fst ?c = None" by code_simp
  have h1: "?c = (None, fst (snd ?c), snd (snd ?c))"
    by (rule prod_eqI) (simp_all only: n fst_conv snd_conv prod.collapse)
  have h2: "deduplicate_findings demo_env (fst (snd ?c)) = Inr (spec_deduplicate_findings (fst (snd ?c)))"
    unfolding demo_env_def by simp
  have h3: "filter_high_confidence demo_env (spec_deduplicate_findings (fst (snd ?c)))
      = Inr (spec_filter_high_confidence (1 / 2) (spec_deduplicate_findings (fst (snd ?c))))"
    unfolding demo_env_def by simp
  from returned_findings_invariant [OF h1 h2 h3, THEN conjunct1] n
  show ?thesis by (intro conjI)
qed

text \<open>
  Counterexample to claim C3 as stated, in two runs.  In the repository \<open>bob/leaky\<close> the
  first file gives two findings with the same key and one with confidence 1/5, the fetch of
  the second file raises, and line 231 returns the collected list as it stands: lines 220
  and 221 are skipped, the list has a key twice and a confidence below the threshold 1/2.
  In the scan of the organization \<open>acme\<close> no exception is raised, and the list handed to
  the report generator has the same key twice, once from each repository.
\<close>

theorem findings_invariant_counterexample:
  "get_repo_files demo_env ''bob/leaky'' 1
     = (Inr [\<lparr>path = ''a.py''\<rparr>, \<lparr>path = ''bad.py''\<rparr>, \<lparr>path = ''c.py''\<rparr>], 1)
   \<and> get_file_content demo_env ''bob/leaky'' ''bad.py'' 1 = (Inl (Exception ''timeout''), 1)
   \<and> fst (collect_findings demo_env (mk_repo ''bob/leaky'') (0, [])) = Some (Exception ''timeout'')
   \<and> map confidence (fst (scan_repository demo_env (mk_repo ''bob/leaky'') (0, [])))
       = [9 / 10, 9 / 10, 1 / 5]
   \<and> map dedup_key (fst (scan_repository demo_env (mk_repo ''bob/leaky'') (0, [])))
       = [(''AWS Access Key'', ''AKIA****CDEF'', ''a.py''),
          (''AWS Access Key'', ''AKIA****CDEF'', ''a.py''),
          (''Generic API Key'', ''xxxx****here'', ''a.py'')]
   \<and> \<not> findings_invariant (1 / 2) (fst (scan_repository demo_env (mk_repo ''bob/leaky'') (0, [])))
   \<and> fst (scan_organization demo_env ''acme'' (0, [])) = Inr ''reports/org:acme.md''
   \<and> map (map repo_name) (reported (snd (snd (scan_organization demo_env ''acme'' (0, [])))))
       = [[Some ''alice/one'', Some ''alice/three'']]
   \<and> map (map dedup_key) (reported (snd (snd (scan_organization demo_env ''acme'' (0, [])))))
       = [[(''AWS Access Key'', ''AKIA****CDEF'', ''a.py''),
           (''AWS Access Key'', ''AKIA****CDEF'', ''a.py'')]]"
  by code_simp

end
